theory Spec2Isabelle
  imports Complex_Main "HOL-Library.Word"
begin

unbundle bit_operations_syntax

section \<open>Classified bands (notebook \<open>udm2.ipynb\<close>)\<close>

text \<open>
  The notebook displays a classified raster band through a Matplotlib normaliser,
  \<^verbatim>\<open>_ClassNormalize\<close>, and decodes the bit-encoded Unusable Data Mask with
  \<^verbatim>\<open>get_udm_labels.get_label\<close>.

  A band is a 2-D NumPy array, possibly a masked array. An element of it is either the
  masked constant or a number. The numbers are rationals here, so the division
  \<^verbatim>\<open>i / (len(values) - 1)\<close> is the exact quotient and NaN and infinities are not
  represented. The array is a list of rows.
\<close>

datatype entry = Masked | Val rat

text \<open>
  An array has an element type, which NumPy keeps through \<^verbatim>\<open>np.around\<close>, \<^verbatim>\<open>copy\<close>
  and item assignment. The rasters of the notebook are integer arrays (\<^verbatim>\<open>uint8\<close> from
  \<^verbatim>\<open>rasterio\<close>, \<^verbatim>\<open>int\<close> from \<^verbatim>\<open>range\<close>); an array can also hold floats. The integer
  types are modelled without a bound: the ticks of a mapping lie between 0 and 1, so what
  is stored of them fits every integer type.
\<close>

datatype dtype = IntT | FloatT

type_synonym band = "entry list list"

text \<open>A plain (unmasked) array, as \<^verbatim>\<open>rasterio\<close>'s \<^verbatim>\<open>src.read()\<close> returns it.\<close>

type_synonym ndarray = "rat list list"

text \<open>The dictionary \<^verbatim>\<open>self._mapping\<close>, in insertion order: value, colour tick.\<close>

type_synonym mapping = "(rat \<times> rat) list"

text \<open>The Python exceptions that the modelled code can raise.\<close>

datatype py_error = KeyError | AttributeError | TypeError | ZeroDivisionError

subsection \<open>NumPy operations used by the notebook\<close>

text \<open>
  \<^verbatim>\<open>np.unique\<close> flattens the array and returns its distinct values in ascending order.
  On a masked array the result is a masked array: the distinct unmasked values in
  ascending order, followed by one masked element when the input has a masked entry.
\<close>

definition valid_values :: "band \<Rightarrow> rat list" where
  "valid_values arry = [x. Val x \<leftarrow> concat arry]"

definition np_unique :: "band \<Rightarrow> entry list" where
  "np_unique arry =
     map Val (sort (remdups (valid_values arry)))
       @ (if Masked \<in> set (concat arry) then [Masked] else [])"

definition np_unique_plain :: "ndarray \<Rightarrow> rat list" where
  "np_unique_plain arry = sort (remdups (concat arry))"

text \<open>
  \<^verbatim>\<open>np.around\<close> rounds to the nearest integer and, as NumPy documents, rounds a value
  exactly halfway between two integers to the even one. The result keeps the float type.
  On a masked array the mask is kept.
\<close>

definition around :: "rat \<Rightarrow> rat" where
  "around x =
     (let f = \<lfloor>x\<rfloor>; d = x - of_int f
      in of_int (if d < 1 / 2 then f
                 else if 1 / 2 < d then f + 1
                 else if even f then f else f + 1))"

fun around_entry :: "entry \<Rightarrow> entry" where
  "around_entry Masked = Masked"
| "around_entry (Val x) = Val (around x)"

definition np_around :: "band \<Rightarrow> band" where
  "np_around arry = map (map around_entry) arry"

subsection \<open>\<^verbatim>\<open>_ClassNormalize.__init__\<close>\<close>

text \<open>
  \<^verbatim>\<open>
  values = [v for v in np.unique(arry)
            if not isinstance(v, np.ma.core.MaskedConstant)]
  if len(values) > 1:
      color_ticks = np.array(range(len(values)), dtype=float) / (len(values) - 1)
  else:
      color_ticks = np.array([0])
  self._mapping = dict((v, ct) for v, ct in zip(values, color_ticks))
  \<close>
\<close>

definition unmasked_unique :: "band \<Rightarrow> rat list" where
  "unmasked_unique arry = [v. Val v \<leftarrow> np_unique arry]"

definition color_ticks :: "rat list \<Rightarrow> rat list" where
  "color_ticks values =
     (if length values > 1
      then map (\<lambda>i. rat_of_nat i / rat_of_nat (length values - 1)) [0..<length values]
      else [0])"

definition ClassNormalize_init :: "band \<Rightarrow> mapping" where
  "ClassNormalize_init arry =
     (let values = unmasked_unique arry
      in zip values (color_ticks values))"

subsection \<open>\<^verbatim>\<open>_ClassNormalize.__call__\<close>\<close>

text \<open>
  \<^verbatim>\<open>
  arry = np.around(arry)
  new_arry = arry.copy()
  for k, v in self._mapping.items():
      new_arry[arry==k] = v
  return new_arry
  \<close>
  The comparison \<^verbatim>\<open>arry==k\<close> is false at a masked position, so the assignment
  through the boolean index leaves that position alone. The comparison reads the
  rounded input, never the array being written. No statement of the method raises.

  Neither \<^verbatim>\<open>np.around\<close> nor \<^verbatim>\<open>copy\<close> changes the element type, and the method has no
  conversion to float. So \<^verbatim>\<open>new_arry\<close> has the element type of the argument, and the
  assignment converts the tick to it: a float array stores the tick as it is, an
  integer array stores it without its fractional part. The element type of the argument
  is the parameter \<open>dt\<close>.
\<close>

definition store :: "dtype \<Rightarrow> rat \<Rightarrow> rat" where
  "store dt v =
     (case dt of
        FloatT \<Rightarrow> v
      | IntT \<Rightarrow> of_int (if 0 \<le> v then \<lfloor>v\<rfloor> else \<lceil>v\<rceil>))"

definition assign_where :: "dtype \<Rightarrow> band \<Rightarrow> rat \<Rightarrow> rat \<Rightarrow> band \<Rightarrow> band" where
  "assign_where dt arry k v new_arry =
     map2 (map2 (\<lambda>a n. if a = Val k then Val (store dt v) else n)) arry new_arry"

definition ClassNormalize_call :: "mapping \<Rightarrow> dtype \<Rightarrow> band \<Rightarrow> py_error + band" where
  "ClassNormalize_call m dt arry0 =
     (let arry = np_around arry0;
          new_arry = arry
      in Inr (fold (\<lambda>(k, v) new. assign_where dt arry k v new) m new_arry))"

subsection \<open>The legend of \<^verbatim>\<open>imshow_class_band\<close>\<close>

text \<open>
  \<^verbatim>\<open>
  class_norm = _ClassNormalize(class_band)
  im = ax.imshow(class_band, cmap=cmap, norm=class_norm)
  try:
      color_mapping = class_norm.mapping
      colors = [im.cmap(color_mapping[k])
                for k in class_labels.keys()]
      labels = class_labels.values()
      patches = [mpatches.Patch(color=c, label=l)
                 for c,l in zip(colors, labels)]
      ax.legend(handles=patches, ...)
  except AttributeError:
      # class_labels not specified
      pass
  \<close>
  \<^verbatim>\<open>class_labels\<close> is \<^verbatim>\<open>None\<close> or an ordered dictionary from class value to label, here
  a list of pairs. The colour map \<^verbatim>\<open>im.cmap\<close> belongs to Matplotlib and is a parameter.
  Subscripting a dictionary with a key it does not hold raises \<^verbatim>\<open>KeyError\<close>; calling
  \<^verbatim>\<open>keys\<close> on \<^verbatim>\<open>None\<close> raises \<^verbatim>\<open>AttributeError\<close>, the one exception the handler
  catches. The result is the list of patches given to \<^verbatim>\<open>ax.legend\<close>, or \<open>None\<close> when
  no legend is drawn. The image, which \<^verbatim>\<open>ax.imshow\<close> draws through the normaliser, is
  not part of the result.
\<close>

definition dict_getitem :: "mapping \<Rightarrow> rat \<Rightarrow> py_error + rat" where
  "dict_getitem m k = (case map_of m k of None \<Rightarrow> Inl KeyError | Some v \<Rightarrow> Inr v)"

fun lookup_colors :: "(rat \<Rightarrow> 'c) \<Rightarrow> mapping \<Rightarrow> rat list \<Rightarrow> py_error + 'c list" where
  "lookup_colors cmap m [] = Inr []"
| "lookup_colors cmap m (k # ks) =
     (case dict_getitem m k of
        Inl e \<Rightarrow> Inl e
      | Inr p \<Rightarrow>
          (case lookup_colors cmap m ks of
             Inl e \<Rightarrow> Inl e
           | Inr cs \<Rightarrow> Inr (cmap p # cs)))"

definition legend_patches ::
  "(rat \<Rightarrow> 'c) \<Rightarrow> mapping \<Rightarrow> (rat \<times> 'l) list option \<Rightarrow> py_error + ('c \<times> 'l) list" where
  "legend_patches cmap color_mapping class_labels =
     (case class_labels of
        None \<Rightarrow> Inl AttributeError
      | Some d \<Rightarrow>
          (case lookup_colors cmap color_mapping (map fst d) of
             Inl e \<Rightarrow> Inl e
           | Inr colors \<Rightarrow> Inr (zip colors (map snd d))))"

definition imshow_class_band ::
  "(rat \<Rightarrow> 'c) \<Rightarrow> band \<Rightarrow> (rat \<times> 'l) list option \<Rightarrow> py_error + ('c \<times> 'l) list option" where
  "imshow_class_band cmap class_band class_labels =
     (let class_norm = ClassNormalize_init class_band
      in case legend_patches cmap class_norm class_labels of
           Inl AttributeError \<Rightarrow> Inr None
         | Inl e \<Rightarrow> Inl e
         | Inr patches \<Rightarrow> Inr (Some patches))"

subsection \<open>\<^verbatim>\<open>visualize_udm2\<close>\<close>

text \<open>
  \<^verbatim>\<open>
  fig, axes = plt.subplots(nrows=4, ncols=2, ...)
  bands = [np.squeeze(b) for b in
           np.split(udm2, udm2.shape[0], axis=0)]
  ...
  bal = zip(bands, axes.flat, udm2_labels)
  for i, (band, ax, label) in enumerate(bal):
      unique = np.unique(band)
      # it is unwieldy to show a legend for more than 5 values
      if len(unique) < 5:
          class_labels = OrderedDict((v, v) for v in np.unique(band))
      else:
          class_labels = None
      imshow_class_band(ax, band, class_labels=class_labels, cmap='Greys_r')
  \<close>
  The argument is the array of \<^verbatim>\<open>load_udm2\<close>: what \<^verbatim>\<open>src.read()\<close> returns, a plain
  3-D array of shape (bands, rows, columns). It is a list of planes, each a list of
  \<open>nrows\<close> rows of \<open>ncols\<close> values, with the two sizes kept beside it.
\<close>

record udm2_array =
  nrows :: nat
  ncols :: nat
  planes :: "ndarray list"

text \<open>
  \<^verbatim>\<open>np.split(udm2, udm2.shape[0], axis=0)\<close> cuts the array into one piece per plane,
  each of shape (1, rows, columns). It first computes the remainder of the length of the
  axis by the number of sections, so with no plane it raises \<^verbatim>\<open>ZeroDivisionError\<close>.
\<close>

definition np_split :: "udm2_array \<Rightarrow> py_error + ndarray list" where
  "np_split udm2 =
     (if length (planes udm2) = 0 then Inl ZeroDivisionError else Inr (planes udm2))"

text \<open>
  \<^verbatim>\<open>np.squeeze\<close> removes every axis of length 1 from a piece: the leading one, and also
  the rows or the columns when there is one row or one column. The values stay; what
  changes is the number of dimensions that are left.
\<close>

definition squeezed_ndim :: "udm2_array \<Rightarrow> nat" where
  "squeezed_ndim udm2 = length (filter (\<lambda>n. n \<noteq> 1) [nrows udm2, ncols udm2])"

definition udm2_class_labels :: "ndarray \<Rightarrow> (rat \<times> rat) list option" where
  "udm2_class_labels band =
     (let unique = np_unique_plain band
      in if length unique < 5
         then Some (map (\<lambda>v. (v, v)) (np_unique_plain band))
         else None)"

text \<open>
  The body of the loop for one band with \<open>ndim\<close> dimensions. Inside
  \<^verbatim>\<open>imshow_class_band\<close>, \<^verbatim>\<open>ax.imshow\<close> raises \<^verbatim>\<open>TypeError\<close> for image data that is
  not 2-D, before the legend is built.
\<close>

definition visualize_udm2_band ::
  "(rat \<Rightarrow> 'c) \<Rightarrow> nat \<Rightarrow> ndarray \<Rightarrow> py_error + ('c \<times> rat) list option" where
  "visualize_udm2_band cmap ndim band =
     (let class_labels = udm2_class_labels band
      in if ndim \<noteq> 2 then Inl TypeError
         else imshow_class_band cmap (map (map Val) band) class_labels)"

text \<open>The loop: an exception in one band ends it.\<close>

fun visualize_bands ::
  "(rat \<Rightarrow> 'c) \<Rightarrow> nat \<Rightarrow> ndarray list \<Rightarrow> py_error + ('c \<times> rat) list option list" where
  "visualize_bands cmap ndim [] = Inr []"
| "visualize_bands cmap ndim (band # bands) =
     (case visualize_udm2_band cmap ndim band of
        Inl e \<Rightarrow> Inl e
      | Inr legend \<Rightarrow>
          (case visualize_bands cmap ndim bands of
             Inl e \<Rightarrow> Inl e
           | Inr legends \<Rightarrow> Inr (legend # legends)))"

text \<open>
  The figure has eight axes and \<^verbatim>\<open>udm2_labels\<close> eight titles, so \<^verbatim>\<open>zip\<close> stops after
  eight bands. The result is the legend of each band drawn, \<open>None\<close> for a band drawn
  without one.
\<close>

definition visualize_udm2 ::
  "(rat \<Rightarrow> 'c) \<Rightarrow> udm2_array \<Rightarrow> py_error + ('c \<times> rat) list option list" where
  "visualize_udm2 cmap udm2 =
     (case np_split udm2 of
        Inl e \<Rightarrow> Inl e
      | Inr bands \<Rightarrow> visualize_bands cmap (squeezed_ndim udm2) (take 8 bands))"

section \<open>The Unusable Data Mask byte\<close>

text \<open>
  The last band of the UDM2 asset is the bit-encoded Unusable Data Mask, one unsigned
  byte per pixel. \<^verbatim>\<open>get_label\<close> is applied to the distinct values of that band.
\<close>

type_synonym u8 = "8 word"

text \<open>\<^verbatim>\<open>sep.join(xs)\<close> of Python.\<close>

fun join :: "string \<Rightarrow> string list \<Rightarrow> string" where
  "join sep [] = []"
| "join sep [x] = x"
| "join sep (x # y # ys) = x @ sep @ join sep (y # ys)"

text \<open>
  \<^verbatim>\<open>'{0:08b}'.format(v)\<close>: the binary digits of \<open>v\<close>, most significant first, padded
  with zeros to eight digits. A byte has exactly eight.
\<close>

definition format_08b :: "u8 \<Rightarrow> string" where
  "format_08b v = map (\<lambda>i. if bit v i then CHR ''1'' else CHR ''0'') (rev [0..<8])"

text \<open>
  \<^verbatim>\<open>
  bands = []
  if v & int('100', 2):      bands.append('Blue')
  if v & int('1000', 2):     bands.append('Green')
  if v & int('10000', 2):    bands.append('Red')
  if v & int('100000', 2):   bands.append('Red-Edge')
  if v & int('1000000', 2):  bands.append('NIR')
  if v & int('10000000', 2): bands.append('Coastal Blue/Green I/Yellow')
  \<close>
\<close>

definition suspect_bands :: "u8 \<Rightarrow> string list" where
  "suspect_bands v =
     (let bands = [];
          bands = (if v AND 4 \<noteq> 0 then bands @ [''Blue''] else bands);
          bands = (if v AND 8 \<noteq> 0 then bands @ [''Green''] else bands);
          bands = (if v AND 16 \<noteq> 0 then bands @ [''Red''] else bands);
          bands = (if v AND 32 \<noteq> 0 then bands @ [''Red-Edge''] else bands);
          bands = (if v AND 64 \<noteq> 0 then bands @ [''NIR''] else bands);
          bands = (if v AND 128 \<noteq> 0 then bands @ [''Coastal Blue/Green I/Yellow''] else bands)
      in bands)"

text \<open>
  \<^verbatim>\<open>
  labels = []
  if v & int('10', 2):
      labels.append('cloud')
  if v & int('11111100', 2):
      ...
      labels.append('missing/suspect {} data'.format(', '.join(bands)))
  \<close>
  The list \<^verbatim>\<open>labels\<close> as it stands before the fallback is tested.
\<close>

definition flag_labels :: "u8 \<Rightarrow> string list" where
  "flag_labels v =
     (let labels = [];
          labels = (if v AND 2 \<noteq> 0 then labels @ [''cloud''] else labels);
          labels = (if v AND 252 \<noteq> 0
                    then labels @ [''missing/suspect '' @ join '', '' (suspect_bands v) @ '' data'']
                    else labels)
      in labels)"

text \<open>
  \<^verbatim>\<open>
  if v == 0:
      label = 'clear'
  elif v == 1:
      label = 'blackfill'
  else:
      labels = ...
      if not len(labels):
          labels.append('{0:08b}'.format(v))
      label = ' + '.join(labels)
  return label
  \<close>
\<close>

definition get_label :: "u8 \<Rightarrow> string" where
  "get_label v =
     (if v = 0 then ''clear''
      else if v = 1 then ''blackfill''
      else
        (let labels = flag_labels v;
             labels = (if length labels = 0 then labels @ [format_08b v] else labels)
         in join '' + '' labels))"

section \<open>Notions of the specification\<close>

text \<open>
  The definitions of this section are not translations of code. They name what the
  specification talks about, so that the functions above can be compared with it.
\<close>

text \<open>The codes of the valid (unmasked) entries of a band.\<close>

definition valid_codes :: "band \<Rightarrow> rat set" where
  "valid_codes arry = {x. Val x \<in> set (concat arry)}"

text \<open>The number of distinct valid codes, the specification's \<open>N\<close>.\<close>

definition n_classes :: "band \<Rightarrow> nat" where
  "n_classes arry = card (valid_codes arry)"

text \<open>
  What the specification's \<^verbatim>\<open>normalize\<close> does with one entry: a masked entry stays
  as it is; a valid entry is rounded, and becomes its position when the mapping has one.
\<close>

definition normalize_entry :: "mapping \<Rightarrow> entry \<Rightarrow> entry" where
  "normalize_entry m e =
     (case e of
        Masked \<Rightarrow> Masked
      | Val x \<Rightarrow> (case map_of m (around x) of Some p \<Rightarrow> Val p | None \<Rightarrow> Val (around x)))"

text \<open>The mapping as an array of element type \<open>dt\<close> holds it: each tick as stored.\<close>

definition stored_ticks :: "dtype \<Rightarrow> mapping \<Rightarrow> mapping" where
  "stored_ticks dt m = map (\<lambda>(k, v). (k, store dt v)) m"

text \<open>
  The legend of a plain band drawn by \<^verbatim>\<open>visualize_udm2\<close>: with fewer than 5 distinct
  values, one entry per distinct value in ascending order, the colour of its position
  beside the value; otherwise none.
\<close>

definition band_legend :: "(rat \<Rightarrow> 'c) \<Rightarrow> ndarray \<Rightarrow> ('c \<times> rat) list option" where
  "band_legend cmap band =
     (if card (set (concat band)) < 5
      then Some (map (\<lambda>v. (cmap (the (map_of (ClassNormalize_init (map (map Val) band)) v)), v))
              (sorted_list_of_set (set (concat band))))
      else None)"

text \<open>The six channels of the mask byte, each with its bit.\<close>

definition channel_bits :: "(nat \<times> string) list" where
  "channel_bits =
     [(2, ''Blue''), (3, ''Green''), (4, ''Red''), (5, ''Red-Edge''), (6, ''NIR''),
      (7, ''Coastal Blue/Green I/Yellow'')]"

definition channels_of :: "u8 \<Rightarrow> string list" where
  "channels_of v = map snd (filter (\<lambda>(i, name). bit v i) channel_bits)"

text \<open>
  The specification's reading of a byte other than 0 and 1: \<open>cloud\<close> for bit 1, one
  combined label for the channels among bits 2 to 7, the two joined by \<open>+\<close>.
\<close>

definition decode_flags :: "u8 \<Rightarrow> string" where
  "decode_flags v =
     join '' + ''
       ((if bit v 1 then [''cloud''] else [])
          @ (if \<exists>i \<in> {2..7}. bit v i
             then [''missing/suspect '' @ join '', '' (channels_of v) @ '' data'']
             else []))"

section \<open>Properties of the mask byte decoder\<close>

subsection \<open>Bit tests on a byte\<close>

lemma test_bit_u8: "(v AND 2 ^ n \<noteq> 0) = bit v n" for v :: u8
  by (simp add: and_exp_eq_0_iff_not_bit)

lemma and_2_iff: "(v AND 2 \<noteq> 0) = bit v 1" for v :: u8
  using test_bit_u8 [of v 1] by simp
lemma and_4_iff: "(v AND 4 \<noteq> 0) = bit v 2" for v :: u8
  using test_bit_u8 [of v 2] by simp
lemma and_8_iff: "(v AND 8 \<noteq> 0) = bit v 3" for v :: u8
  using test_bit_u8 [of v 3] by simp
lemma and_16_iff: "(v AND 16 \<noteq> 0) = bit v 4" for v :: u8
  using test_bit_u8 [of v 4] by simp
lemma and_32_iff: "(v AND 32 \<noteq> 0) = bit v 5" for v :: u8
  using test_bit_u8 [of v 5] by simp
lemma and_64_iff: "(v AND 64 \<noteq> 0) = bit v 6" for v :: u8
  using test_bit_u8 [of v 6] by simp
lemma and_128_iff: "(v AND 128 \<noteq> 0) = bit v 7" for v :: u8
  using test_bit_u8 [of v 7] by simp

lemma and_252_iff:
  "(v AND 252 \<noteq> 0) = (bit v 2 \<or> bit v 3 \<or> bit v 4 \<or> bit v 5 \<or> bit v 6 \<or> bit v 7)"
  for v :: u8
proof -
  have "(252 :: u8) = 4 OR 8 OR 16 OR 32 OR 64 OR 128"
    by simp
  then have "v AND 252 = (v AND 4) OR (v AND 8) OR (v AND 16) OR (v AND 32) OR (v AND 64) OR (v AND 128)"
    by (simp only: bit.conj_disj_distrib)
  then show ?thesis
    by (simp only: or_eq_0_iff de_Morgan_conj and_4_iff and_8_iff and_16_iff and_32_iff
        and_64_iff and_128_iff)
qed

lemma index_u8: "n < 8 \<Longrightarrow> n \<in> {0, 1, 2, 3, 4, 5, 6, 7 :: nat}"
  by auto

lemma high_bits_clear:
  fixes v :: u8
  assumes "\<not> bit v 1" "\<not> bit v 2" "\<not> bit v 3" "\<not> bit v 4" "\<not> bit v 5" "\<not> bit v 6" "\<not> bit v 7"
  shows "v = 0 \<or> v = 1"
proof (cases "bit v 0")
  case True
  have "v = 1"
  proof (rule bit_word_eqI)
    fix n :: nat
    assume "n < LENGTH(8)"
    then have "n < 8" by simp
    from index_u8 [OF this] show "bit v n = bit (1 :: u8) n"
      using assms True by (auto simp add: bit_1_iff)
  qed
  then show ?thesis ..
next
  case False
  have "v = 0"
  proof (rule bit_word_eqI)
    fix n :: nat
    assume "n < LENGTH(8)"
    then have "n < 8" by simp
    from index_u8 [OF this] show "bit v n = bit (0 :: u8) n"
      using assms False by auto
  qed
  then show ?thesis ..
qed

lemma ge2_iff: "(2 \<le> v) = (v \<noteq> 0 \<and> v \<noteq> 1)" for v :: u8
  unfolding word_le_nat_alt word_unat_eq_iff by auto

lemma bits_2_7: "(\<exists>i \<in> {2..7::nat}. P i) = (P 2 \<or> P 3 \<or> P 4 \<or> P 5 \<or> P 6 \<or> P 7)"
proof -
  have "{2..7::nat} = {2, 3, 4, 5, 6, 7}" by auto
  then show ?thesis by simp
qed

lemma suspect_bands_channels: "suspect_bands v = channels_of v"
  by (simp only: suspect_bands_def channels_of_def channel_bits_def Let_def
      and_4_iff and_8_iff and_16_iff and_32_iff and_64_iff and_128_iff) simp

lemma flag_labels_bits:
  "flag_labels v =
     (if bit v 1 then [''cloud''] else [])
       @ (if \<exists>i \<in> {2..7}. bit v i
          then [''missing/suspect '' @ join '', '' (channels_of v) @ '' data'']
          else [])"
  by (simp only: flag_labels_def Let_def and_2_iff and_252_iff bits_2_7 suspect_bands_channels)
     simp

lemma flag_labels_nonempty: "v \<noteq> 0 \<Longrightarrow> v \<noteq> 1 \<Longrightarrow> flag_labels v \<noteq> []"
  using high_bits_clear [of v] by (auto simp add: flag_labels_bits bits_2_7)

lemma get_label_flags: "v \<noteq> 0 \<Longrightarrow> v \<noteq> 1 \<Longrightarrow> get_label v = join '' + '' (flag_labels v)"
  using flag_labels_nonempty [of v] by (simp add: get_label_def)


lemma some_high_bit:
  fixes v :: u8
  assumes "v \<noteq> 0" "v \<noteq> 1"
  shows "\<exists>i. 1 \<le> i \<and> bit v i"
proof (rule ccontr)
  assume "\<not> (\<exists>i. 1 \<le> i \<and> bit v i)"
  then have none: "\<And>i. 1 \<le> i \<Longrightarrow> \<not> bit v i"
    by blast
  have "v = 0 \<or> v = 1"
    by (rule high_bits_clear) (simp_all add: none)
  with assms show False by simp
qed

lemma unset_bit_0_ge2:
  fixes v :: u8
  assumes "v \<noteq> 0" "v \<noteq> 1"
  shows "unset_bit 0 v \<noteq> 0 \<and> unset_bit 0 v \<noteq> 1"
proof -
  from some_high_bit [OF assms] obtain i where i: "1 \<le> i" "bit v i" by blast
  then have "bit (unset_bit 0 v) i" by (simp add: bit_unset_bit_iff)
  with i(1) show ?thesis by (auto simp add: bit_1_iff)
qed

lemma channels_of_unset_bit_0: "channels_of (unset_bit 0 v) = channels_of v"
  by (simp add: channels_of_def channel_bits_def bit_unset_bit_iff)

lemma flag_labels_unset_bit_0: "flag_labels (unset_bit 0 v) = flag_labels v"
  by (simp add: flag_labels_bits bits_2_7 channels_of_unset_bit_0 bit_unset_bit_iff)

lemma flag_labels_subset:
  "set (flag_labels v)
     \<subseteq> {''cloud'', ''missing/suspect '' @ join '', '' (suspect_bands v) @ '' data''}"
  by (auto simp add: flag_labels_def Let_def)

lemma format_08b_digits: "format_08b v =
   map (\<lambda>i. if bit v i then CHR ''1'' else CHR ''0'') [7, 6, 5, 4, 3, 2, 1, 0]"
proof -
  have "[0..<8] = [0, 1, 2, 3, 4, 5, 6, 7::nat]"
    by (simp add: upt_rec)
  then show ?thesis
    by (simp add: format_08b_def)
qed

lemma get_label_not_binary:
  assumes "v \<noteq> 0" "v \<noteq> 1"
  shows "get_label v \<noteq> format_08b v"
proof -
  have "hd (join '' + '' (flag_labels v)) \<in> {CHR ''c'', CHR ''m''}"
    using flag_labels_nonempty [OF assms] by (auto simp add: flag_labels_def Let_def)
  moreover have "hd (format_08b v) \<in> {CHR ''0'', CHR ''1''}"
    by (simp add: format_08b_digits)
  ultimately show ?thesis
    using get_label_flags [OF assms] by auto
qed

text \<open>
  Claim C6. \<^verbatim>\<open>get_label\<close> is defined on every byte, and for a byte other than 0 and 1
  the list of labels is not empty before the fallback is tested: its members are the
  cloud label and the combined missing/suspect label, the result is their join, and it
  is never the eight binary digits of the byte that the fallback would give.
\<close>

theorem fallback_unreachable:
  "v \<noteq> 0 \<and> v \<noteq> 1 \<longrightarrow>
     flag_labels v \<noteq> []
     \<and> set (flag_labels v)
         \<subseteq> {''cloud'', ''missing/suspect '' @ join '', '' (suspect_bands v) @ '' data''}
     \<and> get_label v = join '' + '' (flag_labels v)
     \<and> get_label v \<noteq> format_08b v"
  using flag_labels_nonempty [of v] get_label_flags [of v] flag_labels_subset [of v]
    get_label_not_binary [of v]
  by blast

theorem fallback_unreachable_witness:
  "(20 :: u8) \<noteq> 0 \<and> (20 :: u8) \<noteq> 1 \<and> flag_labels 20 = [''missing/suspect Blue, Red data'']
   \<and> get_label 20 = ''missing/suspect Blue, Red data''"
  using fallback_unreachable [of 20] by (simp add: flag_labels_def suspect_bands_def)

text \<open>
  Claim C7. For every byte from 2 to 255, \<^verbatim>\<open>get_label\<close> gives \<open>cloud\<close> exactly when
  bit 1 is set, one label \<open>missing/suspect ... data\<close> exactly when one of bits 2 to 7 is
  set, listing the channels of the set bits in ascending bit order and joined by commas,
  and joins the two parts with \<open>+\<close>. For \<open>0b11111110\<close> the label has \<open>cloud\<close> and all
  six channels in their fixed order.
\<close>

theorem get_label_decode_flags:
  "(2 \<le> v \<longrightarrow> get_label v = decode_flags v)
   \<and> get_label 254 =
       ''cloud + missing/suspect Blue, Green, Red, Red-Edge, NIR, Coastal Blue/Green I/Yellow data''"
proof
  show "2 \<le> v \<longrightarrow> get_label v = decode_flags v"
    by (simp add: ge2_iff get_label_flags flag_labels_bits decode_flags_def)
  show "get_label 254 =
       ''cloud + missing/suspect Blue, Green, Red, Red-Edge, NIR, Coastal Blue/Green I/Yellow data''"
    by (simp add: get_label_def flag_labels_def suspect_bands_def)
qed

theorem get_label_decode_flags_witness:
  "(2 :: u8) \<le> 6 \<and> get_label 6 = ''cloud + missing/suspect Blue data''"
  using get_label_decode_flags [of 6]
  by (simp add: decode_flags_def channels_of_def channel_bits_def bits_2_7)

text \<open>
  Claim C9. For every byte from 2 on, \<^verbatim>\<open>get_label\<close> does not look at bit 0: the label
  of the byte is the label of the byte with bit 0 cleared. The label of 3 is \<open>cloud\<close>.
\<close>

theorem get_label_ignores_bit_0:
  "(2 \<le> v \<longrightarrow> get_label v = get_label (unset_bit 0 v)) \<and> get_label 3 = ''cloud''"
proof
  show "2 \<le> v \<longrightarrow> get_label v = get_label (unset_bit 0 v)"
    using unset_bit_0_ge2 [of v]
    by (simp add: ge2_iff get_label_flags flag_labels_unset_bit_0)
  show "get_label 3 = ''cloud''"
    by (simp add: get_label_def flag_labels_def suspect_bands_def)
qed

theorem get_label_ignores_bit_0_witness:
  "(2 :: u8) \<le> 7 \<and> unset_bit 0 (7 :: u8) = 6 \<and> get_label 7 = get_label 6"
  using get_label_ignores_bit_0 [of 7] by simp

section \<open>Properties of the classified band normaliser\<close>

subsection \<open>The values and ticks of the mapping\<close>

lemma valid_codes_set: "valid_codes arry = set (valid_values arry)"
  by (auto simp add: valid_codes_def valid_values_def split: entry.splits)

lemma unmasked_unique_sort: "unmasked_unique arry = sort (remdups (valid_values arry))"
  by (simp add: unmasked_unique_def np_unique_def o_def)

lemma unmasked_unique_codes: "unmasked_unique arry = sorted_list_of_set (valid_codes arry)"
  by (simp add: unmasked_unique_sort valid_codes_set sorted_list_of_set_sort_remdups)

lemma finite_valid_codes: "finite (valid_codes arry)"
  by (simp add: valid_codes_set)

lemma length_unmasked_unique: "length (unmasked_unique arry) = card (valid_codes arry)"
  by (simp add: unmasked_unique_codes)

lemma length_color_ticks: "length vs \<le> length (color_ticks vs)"
  by (simp add: color_ticks_def)

lemma init_keys: "map fst (ClassNormalize_init arry) = unmasked_unique arry"
  using length_color_ticks [of "unmasked_unique arry"]
  by (simp add: ClassNormalize_init_def Let_def map_fst_zip_take)

lemma init_ticks:
  "map snd (ClassNormalize_init arry)
     = take (length (unmasked_unique arry)) (color_ticks (unmasked_unique arry))"
  using length_color_ticks [of "unmasked_unique arry"]
  by (simp add: ClassNormalize_init_def Let_def map_snd_zip_take min_def)

lemma distinct_init_keys: "distinct (map fst (ClassNormalize_init arry))"
  by (simp add: init_keys unmasked_unique_codes)

lemma strict_init_keys: "sorted_wrt (<) (map fst (ClassNormalize_init arry))"
  by (simp add: init_keys unmasked_unique_codes)

lemma set_init_keys: "fst ` set (ClassNormalize_init arry) = valid_codes arry"
  using init_keys [of arry] finite_valid_codes [of arry]
  by (metis list.set_map set_sorted_list_of_set unmasked_unique_codes)

lemma strict_ticks:
  assumes "2 \<le> (N::nat)"
  shows "sorted_wrt (<) (map (\<lambda>i. rat_of_nat i / rat_of_nat (N - 1)) [0..<N])"
proof -
  define c where "c = rat_of_nat (N - 1)"
  have pos: "0 < c"
    using assms by (simp add: c_def)
  have "sorted_wrt (<) (map (\<lambda>i. rat_of_nat i / c) [0..<N])"
    by (simp add: sorted_wrt_map sorted_wrt_iff_nth_less divide_strict_right_mono pos)
  then show ?thesis
    unfolding c_def .
qed

lemma color_ticks_many:
  "2 \<le> length vs \<Longrightarrow>
     color_ticks vs = map (\<lambda>i. rat_of_nat i / rat_of_nat (length vs - 1)) [0..<length vs]"
  by (simp add: color_ticks_def)

lemma color_ticks_few: "length vs \<le> 1 \<Longrightarrow> color_ticks vs = [0]"
  by (simp add: color_ticks_def)

text \<open>
  Claim C4. Let \<open>N\<close> be the number of distinct codes among the valid entries of a band.
  The keys of the built mapping are these codes in ascending order. For \<open>N \<ge> 2\<close> the
  \<open>i\<close>-th key has position \<open>i / (N - 1)\<close>, so the positions are strictly increasing
  from 0 to 1; for \<open>N = 1\<close> the one code has position 0; for \<open>N = 0\<close> the mapping is
  empty.
\<close>

theorem mapping_positions:
  "map fst (ClassNormalize_init arry) = sorted_list_of_set (valid_codes arry)
   \<and> length (ClassNormalize_init arry) = n_classes arry
   \<and> sorted_wrt (<) (map fst (ClassNormalize_init arry))
   \<and> (2 \<le> n_classes arry \<longrightarrow>
        map snd (ClassNormalize_init arry)
          = map (\<lambda>i. rat_of_nat i / rat_of_nat (n_classes arry - 1)) [0..<n_classes arry]
        \<and> sorted_wrt (<) (map snd (ClassNormalize_init arry))
        \<and> hd (map snd (ClassNormalize_init arry)) = 0
        \<and> last (map snd (ClassNormalize_init arry)) = 1)
   \<and> (n_classes arry = 1 \<longrightarrow> map snd (ClassNormalize_init arry) = [0])
   \<and> (n_classes arry = 0 \<longrightarrow> ClassNormalize_init arry = [])"
proof -
  let ?m = "ClassNormalize_init arry"
  let ?vs = "unmasked_unique arry"
  let ?N = "n_classes arry"
  have len_vs: "length ?vs = ?N"
    by (simp add: length_unmasked_unique n_classes_def)
  have keys: "map fst ?m = sorted_list_of_set (valid_codes arry)"
    by (simp add: init_keys unmasked_unique_codes)
  have len: "length ?m = ?N"
    using len_vs init_keys [of arry] by (metis length_map)
  have many: "map snd ?m = map (\<lambda>i. rat_of_nat i / rat_of_nat (?N - 1)) [0..<?N]"
    if "2 \<le> ?N"
    using that len_vs by (simp add: init_ticks color_ticks_many)
  have incr: "sorted_wrt (<) (map snd ?m)" if "2 \<le> ?N"
    using that many strict_ticks [of ?N] by simp
  have first: "hd (map snd ?m) = 0" if "2 \<le> ?N"
    using that many by (simp add: hd_map upt_conv_Cons)
  have final: "last (map snd ?m) = 1" if "2 \<le> ?N"
  proof -
    have "[0..<?N] \<noteq> []" using that by simp
    then have "last (map snd ?m) = rat_of_nat (last [0..<?N]) / rat_of_nat (?N - 1)"
      using many [OF that] by (simp add: last_map)
    also have "last [0..<?N] = ?N - 1"
      using that by (simp add: last_upt)
    finally show ?thesis using that by simp
  qed
  have one: "map snd ?m = [0]" if "?N = 1"
    using that len_vs by (simp add: init_ticks color_ticks_few)
  have none: "?m = []" if "?N = 0"
    using that len by simp
  from keys len strict_init_keys [of arry] many incr first final one none
  show ?thesis by blast
qed


theorem mapping_positions_witness:
  "n_classes [[Val 5, Masked, Val 0], [Val 1, Val 5, Val 0]] = 3
   \<and> ClassNormalize_init [[Val 5, Masked, Val 0], [Val 1, Val 5, Val 0]]
       = [(0, 0), (1, 1 / 2), (5, 1)]"
proof -
  let ?b = "[[Val 5, Masked, Val 0], [Val 1, Val 5, Val 0]]"
  have n: "n_classes ?b = 3"
    by (simp add: n_classes_def length_unmasked_unique [symmetric] unmasked_unique_sort
        valid_values_def)
  have codes: "sorted_list_of_set (valid_codes ?b) = [0, 1, 5]"
    by (simp add: unmasked_unique_codes [symmetric] unmasked_unique_sort valid_values_def)
  have up: "[0..<3] = [0, 1, 2]"
    by (simp add: upt_rec)
  from mapping_positions [of ?b] n
  have "map fst (ClassNormalize_init ?b) = [0, 1, 5]"
    and "map snd (ClassNormalize_init ?b) = [0, 1 / 2, 1]"
    by (simp_all add: codes up)
  then have "ClassNormalize_init ?b = zip [0, 1, 5] [0, 1 / 2, 1]"
    by (metis zip_map_fst_snd)
  with n show ?thesis by simp
qed

text \<open>
  Claim C1. For the band \<open>[[0,1,5],[5,1,0]]\<close> with every entry valid, the mapping is
  \<open>{0: 0, 1: 1/2, 5: 1}\<close>. The normaliser with that mapping turns the band as a float
  array into \<open>[[0, 1/2, 1], [1, 1/2, 0]]\<close>. It turns the band as an integer array, as
  the literal is written and as the rasters of the notebook are, into
  \<open>[[0, 0, 1], [1, 0, 0]]\<close>: the tick \<open>1/2\<close> of the class 1 is stored as 0, the
  tick of the class 0.
\<close>

theorem example_band_integer_truncates:
  "ClassNormalize_init [[Val 0, Val 1, Val 5], [Val 5, Val 1, Val 0]]
     = [(0, 0), (1, 1 / 2), (5, 1)]
   \<and> ClassNormalize_call [(0, 0), (1, 1 / 2), (5, 1)] IntT
         [[Val 0, Val 1, Val 5], [Val 5, Val 1, Val 0]]
       = Inr [[Val 0, Val 0, Val 1], [Val 1, Val 0, Val 0]]
   \<and> ClassNormalize_call [(0, 0), (1, 1 / 2), (5, 1)] FloatT
         [[Val 0, Val 1, Val 5], [Val 5, Val 1, Val 0]]
       = Inr [[Val 0, Val (1 / 2), Val 1], [Val 1, Val (1 / 2), Val 0]]"
  by code_simp

subsection \<open>The loop of the normaliser\<close>

lemma map2_same: "map2 f xs (map g xs) = map (\<lambda>x. f x (g x)) xs"
  by (induction xs) simp_all

lemma assign_where_map:
  "assign_where dt arry k v (map (map g) arry)
     = map (map (\<lambda>a. if a = Val k then Val (store dt v) else g a)) arry"
proof -
  have row: "map2 (\<lambda>a n. if a = Val k then Val (store dt v) else n) r (map g r)
      = map (\<lambda>a. if a = Val k then Val (store dt v) else g a) r" for r
    by (rule map2_same)
  have "map2 (map2 (\<lambda>a n. if a = Val k then Val (store dt v) else n)) arry (map (map g) arry)
      = map (\<lambda>r. map2 (\<lambda>a n. if a = Val k then Val (store dt v) else n) r (map g r)) arry"
    by (rule map2_same)
  then show ?thesis
    by (simp add: assign_where_def row)
qed

lemma fold_assign_where:
  "fold (\<lambda>(k, v) new. assign_where dt arry k v new) m (map (map g) arry)
     = map (map (\<lambda>a. fold (\<lambda>(k, v) n. if a = Val k then Val (store dt v) else n) m (g a)))
         arry"
proof (induction m arbitrary: g)
  case Nil
  show ?case by simp
next
  case (Cons kv m)
  obtain k v where kv: "kv = (k, v)" by (cases kv)
  show ?case
    by (simp add: kv assign_where_map Cons.IH)
qed

lemma fold_entry_Masked:
  "fold (\<lambda>(k, v) n. if Masked = Val k then Val (store dt v) else n) m n0 = n0"
  by (induction m arbitrary: n0) auto

lemma fold_entry_Val:
  "fold (\<lambda>(k, v) n. if Val x = Val k then Val (store dt v) else n) m n0
     = (case map_of (rev (stored_ticks dt m)) x of Some p \<Rightarrow> Val p | None \<Rightarrow> n0)"
  by (induction m arbitrary: n0)
    (auto simp add: stored_ticks_def map_add_def rev_map split: option.splits)

lemma call_entries_rev:
  "ClassNormalize_call m dt arry
     = Inr (map (map (normalize_entry (rev (stored_ticks dt m)))) arry)"
proof -
  have entry:
    "fold (\<lambda>(k, v) n. if around_entry e = Val k then Val (store dt v) else n) m (around_entry e)
      = normalize_entry (rev (stored_ticks dt m)) e" for e
  proof (cases e)
    case Masked
    then show ?thesis
      by (simp only: around_entry.simps normalize_entry_def entry.case fold_entry_Masked)
  next
    case (Val x)
    then show ?thesis
      by (simp only: around_entry.simps normalize_entry_def entry.case fold_entry_Val)
  qed
  have "fold (\<lambda>(k, v) new. assign_where dt (np_around arry) k v new) m
          (map (map (\<lambda>a. a)) (np_around arry))
      = map (map (\<lambda>a. fold (\<lambda>(k, v) n. if a = Val k then Val (store dt v) else n) m a))
          (np_around arry)"
    by (rule fold_assign_where)
  then show ?thesis
    by (simp add: ClassNormalize_call_def np_around_def o_def entry)
qed

lemma stored_ticks_float: "stored_ticks FloatT m = m"
  by (induction m) (auto simp add: stored_ticks_def store_def)

lemma keys_stored_ticks: "map fst (stored_ticks dt m) = map fst m"
  by (induction m) (auto simp add: stored_ticks_def)

lemma map_of_rev_distinct:
  assumes "distinct (map fst m)"
  shows "map_of (rev m) = map_of m"
proof -
  have "distinct (map fst (rev m))"
    using assms by (simp add: rev_map [symmetric])
  then show ?thesis
    using assms by (simp add: map_of_inject_set)
qed

lemma normalize_entry_rev:
  "distinct (map fst m) \<Longrightarrow> normalize_entry (rev m) e = normalize_entry m e"
  by (simp add: normalize_entry_def map_of_rev_distinct split: entry.split option.split)

lemma call_entries:
  "distinct (map fst m) \<Longrightarrow>
     ClassNormalize_call m FloatT arry = Inr (map (map (normalize_entry m)) arry)"
  by (simp add: call_entries_rev stored_ticks_float normalize_entry_rev)


subsection \<open>Rounding\<close>

lemma around_of_int: "around (of_int n) = of_int n"
  by (simp add: around_def)

lemma around_Ints: "around x \<in> \<int>"
  by (simp add: around_def Let_def)

lemma around_idem: "around (around x) = around x"
  using around_Ints [of x] by (auto elim!: Ints_cases simp add: around_of_int)

lemma around_near: "\<bar>around x - x\<bar> \<le> 1 / 2"
proof -
  have "of_int \<lfloor>x\<rfloor> \<le> x" and "x < of_int \<lfloor>x\<rfloor> + 1"
    by linarith+
  then show ?thesis
    by (auto simp add: around_def Let_def)
qed

lemma around_tie: "\<bar>around x - x\<bar> = 1 / 2 \<Longrightarrow> even \<lfloor>around x\<rfloor>"
proof -
  assume tie: "\<bar>around x - x\<bar> = 1 / 2"
  have fl: "of_int \<lfloor>x\<rfloor> \<le> x" "x < of_int \<lfloor>x\<rfloor> + 1"
    by linarith+
  show ?thesis
  proof (cases "x - of_int \<lfloor>x\<rfloor> = 1 / 2")
    case True
    then show ?thesis
      by (simp add: around_def Let_def)
  next
    case False
    with tie fl have False
      by (auto simp add: around_def Let_def split: if_splits)
    then show ?thesis ..
  qed
qed

lemma np_around_idem: "np_around (np_around arry) = np_around arry"
proof -
  have "around_entry (around_entry e) = around_entry e" for e
    by (cases e) (simp_all add: around_idem)
  then show ?thesis
    by (simp add: np_around_def o_def)
qed

lemma call_np_around:
  "ClassNormalize_call m dt (np_around arry) = ClassNormalize_call m dt arry"
  by (simp add: ClassNormalize_call_def np_around_idem)

lemma valid_around_entries:
  "[x. Val x \<leftarrow> map around_entry es] = map around [x. Val x \<leftarrow> es]"
  by (induction es) (auto split: entry.splits)

lemma valid_values_np_around: "valid_values (np_around arry) = map around (valid_values arry)"
proof -
  have "concat (map (map around_entry) arry) = map around_entry (concat arry)"
    by (simp add: map_concat)
  then show ?thesis
    unfolding valid_values_def np_around_def by (simp only: valid_around_entries)
qed

lemma init_np_around:
  assumes "\<forall>x \<in> valid_codes arry. around x = x"
  shows "ClassNormalize_init (np_around arry) = ClassNormalize_init arry"
proof -
  have "map around (valid_values arry) = valid_values arry"
    using assms by (simp add: valid_codes_set map_idI)
  then have "unmasked_unique (np_around arry) = unmasked_unique arry"
    by (simp add: unmasked_unique_sort valid_values_np_around)
  then show ?thesis
    by (simp add: ClassNormalize_init_def)
qed

subsection \<open>Masked entries and values without a position\<close>

lemma init_ignores_masked:
  "ClassNormalize_init (map (filter (\<lambda>e. e \<noteq> Masked)) arry) = ClassNormalize_init arry"
proof -
  have row: "[x. Val x \<leftarrow> filter (\<lambda>e. e \<noteq> Masked) es] = [x. Val x \<leftarrow> es]" for es
    by (induction es) (auto split: entry.splits)
  have "concat (map (filter (\<lambda>e. e \<noteq> Masked)) arry) = filter (\<lambda>e. e \<noteq> Masked) (concat arry)"
    by (simp add: filter_concat)
  then have "valid_values (map (filter (\<lambda>e. e \<noteq> Masked)) arry) = valid_values arry"
    unfolding valid_values_def by (simp only: row)
  then show ?thesis
    by (simp add: ClassNormalize_init_def unmasked_unique_sort)
qed

lemma call_shape:
  assumes "ClassNormalize_call m dt arry = Inr r"
  shows "map length r = map length arry"
  using assms by (auto simp add: call_entries_rev)

lemma call_nth:
  assumes "ClassNormalize_call m dt arry = Inr r" "i < length arry" "j < length (arry ! i)"
  shows "r ! i ! j = normalize_entry (rev (stored_ticks dt m)) (arry ! i ! j)"
  using assms by (auto simp add: call_entries_rev)

lemma normalize_entry_absent:
  "k \<notin> fst ` set m \<Longrightarrow> around x = k \<Longrightarrow>
     normalize_entry (rev (stored_ticks dt m)) (Val x) = Val k"
proof -
  assume absent: "k \<notin> fst ` set m" and k: "around x = k"
  have "fst ` set (rev (stored_ticks dt m)) = fst ` set m"
    using keys_stored_ticks [of dt m] by (metis list.set_map set_rev)
  with absent have "map_of (rev (stored_ticks dt m)) k = None"
    by (simp add: map_of_eq_None_iff)
  with k show ?thesis
    by (simp add: normalize_entry_def)
qed

lemma normalize_entry_valid: "\<exists>y. normalize_entry m (Val x) = Val y"
  by (simp add: normalize_entry_def split: option.split)

text \<open>
  A valid entry is not always replaced by its own position. In the float band
  \<open>[[2/5, 0]]\<close> the value \<open>2/5\<close> has position 1, but the normaliser rounds it to 0
  and gives it the position of 0.
\<close>

theorem valid_entry_position_counterexample:
  "ClassNormalize_init [[Val (2 / 5), Val 0]] = [(0, 0), (2 / 5, 1)]
   \<and> ClassNormalize_call [(0, 0), (2 / 5, 1)] FloatT [[Val (2 / 5), Val 0]]
       = Inr [[Val 0, Val 0]]"
  by code_simp

text \<open>
  Claim C8, as amended. The mapping built from a band is the mapping built from the band
  without its masked entries, and each of its keys is the value of a valid entry. For
  every element type, the normaliser returns an array of the same shape in which every
  masked entry is still masked and every valid entry is still valid. In a float array a
  valid entry becomes the position that the mapping has for its rounded value, and its
  rounded value when the mapping has none.
\<close>

theorem masked_entries_untouched:
  "ClassNormalize_init (map (filter (\<lambda>e. e \<noteq> Masked)) arry) = ClassNormalize_init arry
   \<and> (\<forall>k \<in> fst ` set (ClassNormalize_init arry). Val k \<in> set (concat arry))
   \<and> (\<exists>r. ClassNormalize_call m dt arry = Inr r
          \<and> map length r = map length arry
          \<and> (\<forall>i < length arry. \<forall>j < length (arry ! i).
                (arry ! i ! j = Masked \<longrightarrow> r ! i ! j = Masked)
                \<and> (\<forall>x. arry ! i ! j = Val x \<longrightarrow> (\<exists>y. r ! i ! j = Val y))
                \<and> (\<forall>x. arry ! i ! j = Val x \<and> distinct (map fst m) \<and> dt = FloatT \<longrightarrow>
                       r ! i ! j = (case map_of m (around x) of
                                      Some p \<Rightarrow> Val p
                                    | None \<Rightarrow> Val (around x)))))"
proof (intro conjI)
  show "ClassNormalize_init (map (filter (\<lambda>e. e \<noteq> Masked)) arry) = ClassNormalize_init arry"
    by (rule init_ignores_masked)
  show "\<forall>k \<in> fst ` set (ClassNormalize_init arry). Val k \<in> set (concat arry)"
    by (simp only: set_init_keys) (simp add: valid_codes_def)
  obtain r where r: "ClassNormalize_call m dt arry = Inr r"
    by (simp add: call_entries_rev)
  have "r ! i ! j = Masked"
    if "i < length arry" "j < length (arry ! i)" "arry ! i ! j = Masked" for i j
    using call_nth [OF r that(1,2)] that(3) by (simp add: normalize_entry_def)
  moreover have "\<exists>y. r ! i ! j = Val y"
    if "i < length arry" "j < length (arry ! i)" "arry ! i ! j = Val x" for i j x
    using call_nth [OF r that(1,2)] that(3)
      normalize_entry_valid [of "rev (stored_ticks dt m)" x]
    by simp
  moreover have "r ! i ! j = (case map_of m (around x) of Some p \<Rightarrow> Val p | None \<Rightarrow> Val (around x))"
    if "i < length arry" "j < length (arry ! i)" "arry ! i ! j = Val x" "distinct (map fst m)"
      "dt = FloatT"
    for i j x
  proof -
    have "r ! i ! j = normalize_entry (rev m) (Val x)"
      using call_nth [OF r that(1,2)] that(3,5) by (simp add: stored_ticks_float)
    also have "\<dots> = normalize_entry m (Val x)"
      by (rule normalize_entry_rev [OF that(4)])
    finally show ?thesis
      by (simp add: normalize_entry_def)
  qed
  ultimately show "\<exists>r. ClassNormalize_call m dt arry = Inr r
          \<and> map length r = map length arry
          \<and> (\<forall>i < length arry. \<forall>j < length (arry ! i).
                (arry ! i ! j = Masked \<longrightarrow> r ! i ! j = Masked)
                \<and> (\<forall>x. arry ! i ! j = Val x \<longrightarrow> (\<exists>y. r ! i ! j = Val y))
                \<and> (\<forall>x. arry ! i ! j = Val x \<and> distinct (map fst m) \<and> dt = FloatT \<longrightarrow>
                       r ! i ! j = (case map_of m (around x) of
                                      Some p \<Rightarrow> Val p
                                    | None \<Rightarrow> Val (around x))))"
    using r call_shape [OF r] by blast
qed

theorem masked_entries_untouched_witness:
  "ClassNormalize_init [[Val 0, Masked], [Val 3, Val 1]] = [(0, 0), (1, 1 / 2), (3, 1)]
   \<and> distinct (map fst [(0 :: rat, 0 :: rat), (1, 1 / 2), (3, 1)])
   \<and> ClassNormalize_call [(0, 0), (1, 1 / 2), (3, 1)] FloatT [[Val 0, Masked], [Val 3, Val 1]]
       = Inr [[Val 0, Masked], [Val 1, Val (1 / 2)]]"
proof -
  let ?b = "[[Val 0, Masked], [Val 3, Val 1]]"
  let ?m = "[(0 :: rat, 0 :: rat), (1, 1 / 2), (3, 1)]"
  have init: "ClassNormalize_init ?b = ?m"
    by code_simp
  have d: "distinct (map fst ?m)"
    by simp
  from masked_entries_untouched [of ?b ?m FloatT] obtain r
    where r: "ClassNormalize_call ?m FloatT ?b = Inr r"
      and len: "map length r = map length ?b"
    by blast
  have "ClassNormalize_call ?m FloatT ?b = Inr [[Val 0, Masked], [Val 1, Val (1 / 2)]]"
    by code_simp
  with init d r show ?thesis
    by simp
qed

text \<open>
  The normaliser has no error path. With a mapping that holds only the key 0, the entry 7
  comes back as 7, and the empty band comes back empty, whatever the element type.
\<close>

theorem normalize_absent_value_counterexample:
  "7 \<notin> fst ` set [(0 :: rat, 0 :: rat)]
   \<and> ClassNormalize_call [(0, 0)] FloatT [[Val 7]] = Inr [[Val 7]]
   \<and> ClassNormalize_call [(0, 0)] IntT [[Val 7]] = Inr [[Val 7]]
   \<and> ClassNormalize_call [(0, 0)] FloatT [] = Inr []
   \<and> ClassNormalize_call [(0, 0)] IntT [] = Inr []"
  by code_simp

text \<open>
  Claim C2, as amended. The normaliser returns for every mapping, every element type and
  every band, the empty band included, and the result has the shape of the band. A valid
  entry whose rounded value is not a key of the mapping passes through as that rounded
  value. Building the mapping of the empty band returns the empty mapping.
\<close>

theorem normalize_never_fails:
  "(\<exists>r. ClassNormalize_call m dt arry = Inr r
        \<and> map length r = map length arry
        \<and> (\<forall>i < length arry. \<forall>j < length (arry ! i). \<forall>x.
              arry ! i ! j = Val x \<and> around x \<notin> fst ` set m \<longrightarrow> r ! i ! j = Val (around x)))
   \<and> ClassNormalize_call m dt [] = Inr []
   \<and> ClassNormalize_init [] = []"
proof (intro conjI)
  obtain r where r: "ClassNormalize_call m dt arry = Inr r"
    by (simp add: call_entries_rev)
  have "r ! i ! j = Val (around x)"
    if "i < length arry" "j < length (arry ! i)" "arry ! i ! j = Val x" "around x \<notin> fst ` set m"
    for i j x
    using call_nth [OF r that(1,2)] that(3) normalize_entry_absent [OF that(4) refl]
    by simp
  then show "\<exists>r. ClassNormalize_call m dt arry = Inr r
        \<and> map length r = map length arry
        \<and> (\<forall>i < length arry. \<forall>j < length (arry ! i). \<forall>x.
              arry ! i ! j = Val x \<and> around x \<notin> fst ` set m \<longrightarrow> r ! i ! j = Val (around x))"
    using r call_shape [OF r] by blast
  show "ClassNormalize_call m dt [] = Inr []"
    by (simp add: call_entries_rev)
  show "ClassNormalize_init [] = []"
    by (simp add: ClassNormalize_init_def unmasked_unique_def np_unique_def valid_values_def)
qed

theorem normalize_never_fails_witness:
  "2 \<notin> fst ` set [(0 :: rat, 0 :: rat), (1, 1)]
   \<and> ClassNormalize_call [(0, 0), (1, 1)] FloatT [[Val (5 / 2), Val (7 / 2)], [Val 1, Masked]]
     = Inr [[Val 2, Val 4], [Val 1, Masked]]"
proof -
  let ?b = "[[Val (5 / 2), Val (7 / 2)], [Val 1, Masked]]"
  let ?m = "[(0 :: rat, 0 :: rat), (1, 1)]"
  from normalize_never_fails [of ?m FloatT ?b] obtain r
    where r: "ClassNormalize_call ?m FloatT ?b = Inr r" and "map length r = map length ?b"
    by blast
  have "ClassNormalize_call ?m FloatT ?b = Inr [[Val 2, Val 4], [Val 1, Masked]]"
    by code_simp
  with r show ?thesis
    by simp
qed

subsection \<open>Where the rounding takes place\<close>

text \<open>
  \<^verbatim>\<open>__init__\<close> takes the values of the band as they are. The values \<open>1/5\<close> and
  \<open>2/5\<close> both round to 0, and the mapping has a class for each.
\<close>

theorem mapping_rounds_counterexample:
  "around (1 / 5) = around (2 / 5)
   \<and> ClassNormalize_init [[Val (1 / 5), Val (2 / 5)]] = [(1 / 5, 0), (2 / 5, 1)]"
  by code_simp

text \<open>
  Claim C3, as amended. Building the mapping does not round: the keys are the distinct
  values of the valid entries as they stand, so two values are one class only when they
  are equal. On a band whose valid values are whole numbers, rounding first gives the
  same mapping. The rounding is done by the normaliser, which reads its band only through
  \<^verbatim>\<open>np.around\<close>: the nearest integer, and the even one of the two at a tie.
\<close>

theorem mapping_keys_unrounded:
  "fst ` set (ClassNormalize_init arry) = valid_codes arry
   \<and> distinct (map fst (ClassNormalize_init arry))
   \<and> ((\<forall>x \<in> valid_codes arry. around x = x) \<longrightarrow>
        ClassNormalize_init (np_around arry) = ClassNormalize_init arry)
   \<and> ClassNormalize_call m dt arry = ClassNormalize_call m dt (np_around arry)
   \<and> around x \<in> \<int>
   \<and> \<bar>around x - x\<bar> \<le> 1 / 2
   \<and> (\<bar>around x - x\<bar> = 1 / 2 \<longrightarrow> even \<lfloor>around x\<rfloor>)"
  using set_init_keys [of arry] distinct_init_keys [of arry] init_np_around [of arry]
    call_np_around [of m dt arry] around_Ints [of x] around_near [of x] around_tie [of x]
  by simp

theorem mapping_keys_unrounded_witness:
  "valid_codes [[Val 2, Masked, Val 7]] = {2, 7}
   \<and> around 2 = 2 \<and> around 7 = 7
   \<and> ClassNormalize_init (np_around [[Val 2, Masked, Val 7]]) = [(2, 0), (7, 1)]
   \<and> \<bar>around (5 / 2) - 5 / 2\<bar> = 1 / 2 \<and> \<lfloor>around (5 / 2)\<rfloor> = 2"
proof -
  let ?b = "[[Val 2, Masked, Val 7]]"
  have codes: "valid_codes ?b = {2, 7}"
    by (simp add: valid_codes_set valid_values_def)
  have fixed: "around 2 = 2" "around 7 = 7"
    by (simp_all add: around_def)
  have init: "ClassNormalize_init ?b = [(2, 0), (7, 1)]"
    by code_simp
  have half: "around (5 / 2) = 2"
    by code_simp
  from mapping_keys_unrounded [of ?b "[]" FloatT "5 / 2"] codes fixed
  have "ClassNormalize_init (np_around ?b) = ClassNormalize_init ?b"
    and "\<bar>around (5 / 2) - 5 / 2\<bar> = 1 / 2 \<longrightarrow> even \<lfloor>around (5 / 2)\<rfloor>"
    by simp_all
  with codes fixed init half show ?thesis
    by simp
qed

subsection \<open>The legend\<close>

lemma dict_getitem_keys:
  "dict_getitem m k = (if k \<in> fst ` set m then Inr (the (map_of m k)) else Inl KeyError)"
  by (auto simp add: dict_getitem_def map_of_eq_None_iff [symmetric] split: option.splits)

lemma lookup_colors_present:
  "set ks \<subseteq> fst ` set m \<Longrightarrow>
     lookup_colors cmap m ks = Inr (map (\<lambda>k. cmap (the (map_of m k))) ks)"
  by (induction ks) (simp_all add: dict_getitem_keys)

lemma lookup_colors_absent:
  "\<not> set ks \<subseteq> fst ` set m \<Longrightarrow> lookup_colors cmap m ks = Inl KeyError"
  by (induction ks) (auto simp add: dict_getitem_keys lookup_colors_present split: sum.splits)

lemma zip_colors_labels:
  "zip (map (f \<circ> fst) d) (map snd d) = map (\<lambda>(k, l). (f k, l)) d"
  by (induction d) auto

lemma imshow_no_labels: "imshow_class_band cmap arry None = Inr None"
  by (simp add: imshow_class_band_def legend_patches_def)

lemma imshow_present:
  assumes "set (map fst d) \<subseteq> valid_codes arry"
  shows "imshow_class_band cmap arry (Some d)
     = Inr (Some (map (\<lambda>(k, l). (cmap (the (map_of (ClassNormalize_init arry) k)), l)) d))"
proof -
  from assms have "set (map fst d) \<subseteq> fst ` set (ClassNormalize_init arry)"
    by (simp add: set_init_keys)
  then show ?thesis
    by (simp add: imshow_class_band_def legend_patches_def lookup_colors_present
        zip_colors_labels)
qed

lemma imshow_absent:
  assumes "\<not> set (map fst d) \<subseteq> valid_codes arry"
  shows "imshow_class_band cmap arry (Some d) = Inl KeyError"
proof -
  from assms have "\<not> set (map fst d) \<subseteq> fst ` set (ClassNormalize_init arry)"
    by (simp add: set_init_keys)
  then show ?thesis
    by (simp add: imshow_class_band_def legend_patches_def lookup_colors_absent)
qed

text \<open>
  A label whose key the mapping does not hold is not skipped: with the band \<open>[[0]]\<close>
  and labels for 0 and 3, the subscript raises \<^verbatim>\<open>KeyError\<close>, which the handler does
  not catch.
\<close>

theorem legend_absent_key_counterexample:
  "map_of (ClassNormalize_init [[Val 0]]) 3 = None
   \<and> imshow_class_band id [[Val 0]] (Some [(0, ''zero''), (3, ''three'')]) = Inl KeyError"
  by code_simp

text \<open>
  Claim C5, as amended. Without labels no legend is drawn and nothing is raised. With
  labels whose keys are all valid codes of the band, the legend has, for each pair of the
  labels in their order, the colour of the key's position and the label. With a key that
  is not a valid code of the band, \<^verbatim>\<open>KeyError\<close> is raised.
\<close>

theorem legend_entries:
  "imshow_class_band cmap arry (None :: (rat \<times> 'l) list option) = Inr None
   \<and> (set (map fst d) \<subseteq> valid_codes arry \<longrightarrow>
        imshow_class_band cmap arry (Some (d :: (rat \<times> 'l) list))
          = Inr (Some (map (\<lambda>(k, l). (cmap (the (map_of (ClassNormalize_init arry) k)), l)) d)))
   \<and> (\<not> set (map fst d) \<subseteq> valid_codes arry \<longrightarrow>
        imshow_class_band cmap arry (Some d) = Inl KeyError)"
  using imshow_no_labels [of cmap arry] imshow_present [of d arry cmap]
    imshow_absent [of d arry cmap]
  by blast

theorem legend_entries_witness:
  "set (map fst [(5 :: rat, ''five''), (0, ''zero'')]) \<subseteq> valid_codes [[Val 0, Val 5, Masked]]
   \<and> \<not> set (map fst [(3 :: rat, ''three'')]) \<subseteq> valid_codes [[Val 0, Val 5, Masked]]
   \<and> imshow_class_band (\<lambda>p. p) [[Val 0, Val 5, Masked]] (Some [(5, ''five''), (0, ''zero'')])
       = Inr (Some [(1, ''five''), (0, ''zero'')])
   \<and> imshow_class_band (\<lambda>p. p) [[Val 0, Val 5, Masked]] (Some [(3, ''three'')]) = Inl KeyError"
proof -
  let ?b = "[[Val 0, Val 5, Masked]]"
  have codes: "valid_codes ?b = {0, 5}"
    by (simp add: valid_codes_set valid_values_def)
  have init: "ClassNormalize_init ?b = [(0, 0), (5, 1)]"
    by code_simp
  have present: "set (map fst [(5 :: rat, ''five''), (0, ''zero'')]) \<subseteq> valid_codes ?b"
    by (simp add: codes)
  have absent: "\<not> set (map fst [(3 :: rat, ''three'')]) \<subseteq> valid_codes ?b"
    by (simp add: codes)
  from legend_entries [of "\<lambda>p. p" ?b "[(5, ''five''), (0, ''zero'')]"] present
  have "imshow_class_band (\<lambda>p. p) ?b (Some [(5, ''five''), (0, ''zero'')])
      = Inr (Some [(1, ''five''), (0, ''zero'')])"
    by (simp add: init)
  moreover from legend_entries [of "\<lambda>p. p" ?b "[(3, ''three'')]"] absent
  have "imshow_class_band (\<lambda>p. p) ?b (Some [(3, ''three'')]) = Inl KeyError"
    by blast
  ultimately show ?thesis
    using present absent by blast
qed


subsection \<open>Plain arrays\<close>

lemma valid_values_plain: "valid_values (map (map Val) band) = concat band"
proof -
  have "[x. Val x \<leftarrow> map Val xs] = xs" for xs :: "rat list"
    by (induction xs) simp_all
  then show ?thesis
    by (simp add: valid_values_def map_concat [symmetric])
qed

lemma valid_codes_plain: "valid_codes (map (map Val) band) = set (concat band)"
  by (simp only: valid_codes_set valid_values_plain)

lemma np_unique_plain_codes:
  "np_unique_plain band = sorted_list_of_set (set (concat band))"
  by (simp only: np_unique_plain_def sorted_list_of_set_sort_remdups)

lemma length_np_unique_plain: "length (np_unique_plain band) = card (set (concat band))"
  by (simp add: np_unique_plain_codes)

lemma set_np_unique_plain: "set (np_unique_plain band) = set (concat band)"
  by (simp add: np_unique_plain_def)

lemma udm2_class_labels_iff:
  "(udm2_class_labels band \<noteq> None) = (card (set (concat band)) < 5)"
  by (simp add: udm2_class_labels_def Let_def length_np_unique_plain)

lemma visualize_few:
  assumes "card (set (concat band)) < 5"
  shows "visualize_udm2_band cmap 2 band
     = Inr (Some (map (\<lambda>v. (cmap (the (map_of (ClassNormalize_init (map (map Val) band)) v)), v))
                   (sorted_list_of_set (set (concat band)))))"
proof -
  let ?d = "map (\<lambda>v. (v, v)) (np_unique_plain band)"
  have labels: "udm2_class_labels band = Some ?d"
    using assms by (simp add: udm2_class_labels_def Let_def length_np_unique_plain)
  have "set (map fst ?d) \<subseteq> valid_codes (map (map Val) band)"
    by (simp add: valid_codes_plain o_def set_np_unique_plain)
  from imshow_present [OF this, of cmap] show ?thesis
    by (simp add: visualize_udm2_band_def labels o_def np_unique_plain_codes)
qed

lemma visualize_many:
  assumes "\<not> card (set (concat band)) < 5"
  shows "visualize_udm2_band cmap 2 band = Inr None"
proof -
  have "udm2_class_labels band = None"
    using assms by (simp add: udm2_class_labels_def Let_def length_np_unique_plain)
  then show ?thesis
    by (simp add: visualize_udm2_band_def imshow_no_labels)
qed

lemma visualize_band_2d: "visualize_udm2_band cmap 2 band = Inr (band_legend cmap band)"
  using visualize_few [of band cmap] visualize_many [of band cmap]
  by (simp add: band_legend_def)

lemma visualize_bands_2d: "visualize_bands cmap 2 bands = Inr (map (band_legend cmap) bands)"
  by (induction bands) (simp_all add: visualize_band_2d)

lemma squeezed_ndim_2: "squeezed_ndim udm2 = 2 \<longleftrightarrow> nrows udm2 \<noteq> 1 \<and> ncols udm2 \<noteq> 1"
  by (simp add: squeezed_ndim_def)

lemma visualize_udm2_drawn:
  assumes "planes udm2 \<noteq> []" "nrows udm2 \<noteq> 1" "ncols udm2 \<noteq> 1"
  shows "visualize_udm2 cmap udm2 = Inr (map (band_legend cmap) (take 8 (planes udm2)))"
proof -
  have "squeezed_ndim udm2 = 2"
    using assms by (simp add: squeezed_ndim_2)
  then show ?thesis
    using assms(1) by (simp add: visualize_udm2_def np_split_def visualize_bands_2d)
qed

text \<open>
  Outside these sizes nothing is drawn: with no plane the split raises, and with one row
  or one column the first band is refused as an image.
\<close>

lemma visualize_udm2_raises:
  "visualize_udm2 cmap (udm2\<lparr>planes := []\<rparr>) = Inl ZeroDivisionError"
  "planes udm2 \<noteq> [] \<Longrightarrow> nrows udm2 = 1 \<or> ncols udm2 = 1 \<Longrightarrow>
     visualize_udm2 cmap udm2 = Inl TypeError"
proof -
  show "visualize_udm2 cmap (udm2\<lparr>planes := []\<rparr>) = Inl ZeroDivisionError"
    by (simp add: visualize_udm2_def np_split_def)
  assume some: "planes udm2 \<noteq> []" and flat: "nrows udm2 = 1 \<or> ncols udm2 = 1"
  from some obtain band bands where "take 8 (planes udm2) = band # bands"
    by (cases "planes udm2") simp_all
  moreover from flat have "squeezed_ndim udm2 \<noteq> 2"
    by (simp add: squeezed_ndim_2)
  ultimately show "visualize_udm2 cmap udm2 = Inl TypeError"
    using some by (simp add: visualize_udm2_def np_split_def visualize_udm2_band_def)
qed

text \<open>
  Claim C10. \<^verbatim>\<open>visualize_udm2\<close> gives a band class labels exactly when the band has
  fewer than 5 distinct values. For an array with at least one plane and with neither a
  single row nor a single column, it draws the first eight bands, each with a legend
  exactly when the band has fewer than 5 distinct values: then the legend has one entry
  per distinct value in ascending order; with 5 or more distinct values the labels are
  \<^verbatim>\<open>None\<close> and no legend is drawn.
\<close>

theorem legend_iff_fewer_than_5:
  "(udm2_class_labels band \<noteq> None) = (card (set (concat band)) < 5)
   \<and> (planes udm2 \<noteq> [] \<and> nrows udm2 \<noteq> 1 \<and> ncols udm2 \<noteq> 1 \<longrightarrow>
        (\<exists>legends. visualize_udm2 cmap udm2 = Inr legends
           \<and> length legends = min 8 (length (planes udm2))
           \<and> (\<forall>i < length legends.
                 (legends ! i \<noteq> None) = (card (set (concat (planes udm2 ! i))) < 5)
                 \<and> legends ! i =
                     (if card (set (concat (planes udm2 ! i))) < 5
                      then Some (map (\<lambda>v. (cmap (the (map_of
                                   (ClassNormalize_init (map (map Val) (planes udm2 ! i))) v)), v))
                             (sorted_list_of_set (set (concat (planes udm2 ! i)))))
                      else None))))"
proof (intro conjI impI)
  show "(udm2_class_labels band \<noteq> None) = (card (set (concat band)) < 5)"
    by (rule udm2_class_labels_iff)
  assume ok: "planes udm2 \<noteq> [] \<and> nrows udm2 \<noteq> 1 \<and> ncols udm2 \<noteq> 1"
  let ?legends = "map (band_legend cmap) (take 8 (planes udm2))"
  have drawn: "visualize_udm2 cmap udm2 = Inr ?legends"
    using ok by (simp add: visualize_udm2_drawn)
  have len: "length ?legends = min 8 (length (planes udm2))"
    by (simp add: min.commute)
  have each: "?legends ! i = band_legend cmap (planes udm2 ! i)" if "i < length ?legends" for i
    using that by simp
  have "(?legends ! i \<noteq> None) = (card (set (concat (planes udm2 ! i))) < 5)
      \<and> ?legends ! i =
          (if card (set (concat (planes udm2 ! i))) < 5
           then Some (map (\<lambda>v. (cmap (the (map_of
                        (ClassNormalize_init (map (map Val) (planes udm2 ! i))) v)), v))
                  (sorted_list_of_set (set (concat (planes udm2 ! i)))))
           else None)"
    if "i < length ?legends" for i
    unfolding each [OF that] by (simp add: band_legend_def)
  with drawn len show "\<exists>legends. visualize_udm2 cmap udm2 = Inr legends
           \<and> length legends = min 8 (length (planes udm2))
           \<and> (\<forall>i < length legends.
                 (legends ! i \<noteq> None) = (card (set (concat (planes udm2 ! i))) < 5)
                 \<and> legends ! i =
                     (if card (set (concat (planes udm2 ! i))) < 5
                      then Some (map (\<lambda>v. (cmap (the (map_of
                                   (ClassNormalize_init (map (map Val) (planes udm2 ! i))) v)), v))
                             (sorted_list_of_set (set (concat (planes udm2 ! i)))))
                      else None))"
    by blast
qed

theorem legend_iff_fewer_than_5_witness:
  "planes \<lparr>nrows = 2, ncols = 3, planes = [[[0, 1, 1], [1, 2, 0]], [[0, 1, 2], [3, 4, 4]]]\<rparr> \<noteq> []
   \<and> card (set (concat [[0, 1, 1], [1, 2, 0 :: rat]])) = 3
   \<and> card (set (concat [[0, 1, 2], [3, 4, 4 :: rat]])) = 5
   \<and> visualize_udm2 id
        \<lparr>nrows = 2, ncols = 3, planes = [[[0, 1, 1], [1, 2, 0]], [[0, 1, 2], [3, 4, 4]]]\<rparr>
       = Inr [Some [(0, 0), (1 / 2, 1), (1, 2)], None]"
proof -
  let ?u = "\<lparr>nrows = 2, ncols = 3, planes = [[[0, 1, 1], [1, 2, 0]], [[0, 1, 2], [3, 4, 4 :: rat]]]\<rparr>"
  have few: "card (set (concat [[0, 1, 1], [1, 2, 0 :: rat]])) = 3"
    by code_simp
  have many: "card (set (concat [[0, 1, 2], [3, 4, 4 :: rat]])) = 5"
    by code_simp
  have ok: "planes ?u \<noteq> [] \<and> nrows ?u \<noteq> 1 \<and> ncols ?u \<noteq> 1"
    by simp
  from legend_iff_fewer_than_5 [of _ ?u id] ok obtain legends
    where drawn: "visualize_udm2 id ?u = Inr legends"
      and len: "length legends = min 8 (length (planes ?u))"
    by blast
  have "visualize_udm2 id ?u = Inr [Some [(0, 0), (1 / 2, 1), (1, 2)], None]"
    by code_simp
  with few many drawn show ?thesis
    by simp
qed

end
